theory Spec2Isabelle
  imports Main "HOL-Library.Word" "HOL-Library.Sublist"
begin

section \<open>Data model of \<open>detector/detection_results.go\<close>\<close>

text \<open>
  \<open>gitrepo.FilePath\<close> is a string type (the source converts with \<open>string(...)\<close>).
  Go strings are byte sequences and \<open>len\<close> counts bytes, as \<open>length\<close> does on
  \<open>string\<close>. The counters are Go \<open>int\<close>: 64-bit two's complement on a 64-bit
  platform, where \<open>++\<close> wraps around and \<open>> 0\<close> is the signed comparison.

  A slice is modelled by the sequence of its elements. \<open>Fail\<close> and \<open>Warn\<close> store the
  slice of commits they are given and later \<open>append\<close> to it, which may write into the
  spare capacity of the array behind it: the elements of the stored slice and of the
  result of \<open>append\<close> are those of the model in every case, and the other stored slices
  keep their elements when the slices passed in share no array.
\<close>

type_synonym FilePath = string
type_synonym go_int = "64 word"

record Details =
  Category :: string
  Message :: string
  Commits :: "string list"

record ResultsDetails =
  Filename :: FilePath
  FailureList :: "Details list"
  WarningList :: "Details list"
  IgnoreList :: "Details list"

text \<open>The field \<open>Filename\<close> of \<open>FailureTypes\<close> is written \<open>Filename'\<close> here, the
  name being taken by the record above.\<close>

record FailureTypes =
  Filecontent :: go_int
  Filesize :: go_int
  Filename' :: go_int
  Warnings :: go_int
  Ignores :: go_int

record ResultsSummary =
  Types :: FailureTypes

record DetectionResults =
  Summary :: ResultsSummary
  Results :: "ResultsDetails list"

datatype error = NilPointerDereference

section \<open>Collecting results\<close>

definition NewDetectionResults :: DetectionResults where
  "NewDetectionResults =
     \<lparr>Summary = \<lparr>Types = \<lparr>Filecontent = 0, Filesize = 0, Filename' = 0,
                              Warnings = 0, Ignores = 0\<rparr>\<rparr>,
      Results = []\<rparr>"

text \<open>\<open>getResultDetailsForFilePath\<close>: the first record of that name, or nil.\<close>

fun getResultDetailsForFilePath :: "ResultsDetails list \<Rightarrow> FilePath \<Rightarrow> ResultsDetails option" where
  "getResultDetailsForFilePath [] fileName = None"
| "getResultDetailsForFilePath (resultDetail # rest) fileName =
     (if Filename resultDetail = fileName then Some resultDetail
      else getResultDetailsForFilePath rest fileName)"

text \<open>
  The inner loop of \<open>Fail\<close> and of \<open>Warn\<close> (lines 121-126 and 147-152): every entry
  of the list equal in category and message gets the commits appended; the flag tells
  whether there was one.
\<close>

fun appendCommitsLoop ::
  "string \<Rightarrow> string \<Rightarrow> string list \<Rightarrow> Details list \<Rightarrow> Details list \<times> bool" where
  "appendCommitsLoop category message commits [] = ([], False)"
| "appendCommitsLoop category message commits (d # ds) =
     (let (ds', present) = appendCommitsLoop category message commits ds
      in if Category d = category \<and> Message d = message
         then (d\<lparr>Commits := Commits d @ commits\<rparr> # ds', True)
         else (d # ds', present))"

definition failRecord ::
  "string \<Rightarrow> string \<Rightarrow> string list \<Rightarrow> ResultsDetails \<Rightarrow> ResultsDetails" where
  "failRecord category message commits rd =
     (let (fl, isEntryPresentForGivenCategoryAndMessage) =
            appendCommitsLoop category message commits (FailureList rd)
      in if \<not> isEntryPresentForGivenCategoryAndMessage
         then rd\<lparr>FailureList :=
                   fl @ [\<lparr>Category = category, Message = message, Commits = commits\<rparr>]\<rparr>
         else rd\<lparr>FailureList := fl\<rparr>)"

definition warnRecord ::
  "string \<Rightarrow> string \<Rightarrow> string list \<Rightarrow> ResultsDetails \<Rightarrow> ResultsDetails" where
  "warnRecord category message commits rd =
     (let (wl, isEntryPresentForGivenCategoryAndMessage) =
            appendCommitsLoop category message commits (WarningList rd)
      in if \<not> isEntryPresentForGivenCategoryAndMessage
         then rd\<lparr>WarningList :=
                   wl @ [\<lparr>Category = category, Message = message, Commits = commits\<rparr>]\<rparr>
         else rd\<lparr>WarningList := wl\<rparr>)"

text \<open>The inner loop of \<open>Ignore\<close> (lines 176-181) only raises the flag.\<close>

fun categoryPresentLoop :: "string \<Rightarrow> Details list \<Rightarrow> bool" where
  "categoryPresentLoop category [] = False"
| "categoryPresentLoop category (d # ds) =
     (let present = categoryPresentLoop category ds
      in if Category d = category then True else present)"

definition ignoreRecord :: "string \<Rightarrow> ResultsDetails \<Rightarrow> ResultsDetails" where
  "ignoreRecord category rd =
     (if \<not> categoryPresentLoop category (IgnoreList rd)
      then rd\<lparr>IgnoreList :=
                IgnoreList rd @ [\<lparr>Category = category, Message = [], Commits = []\<rparr>]\<rparr>
      else rd)"

text \<open>
  The outer loop of the three operations: every record of that file name is updated,
  and the flag tells whether the file was present.
\<close>

fun resultsLoop ::
  "(ResultsDetails \<Rightarrow> ResultsDetails) \<Rightarrow> FilePath \<Rightarrow> ResultsDetails list
     \<Rightarrow> ResultsDetails list \<times> bool" where
  "resultsLoop upd filePath [] = ([], False)"
| "resultsLoop upd filePath (rd # rds) =
     (let (rds', isFilePresentInResults) = resultsLoop upd filePath rds
      in if Filename rd = filePath then (upd rd # rds', True)
         else (rd # rds', isFilePresentInResults))"

definition updateResultsSummary :: "DetectionResults \<Rightarrow> string \<Rightarrow> DetectionResults" where
  "updateResultsSummary r category =
     (let t = Types (Summary r)
      in if category = ''filecontent''
         then r\<lparr>Summary := \<lparr>Types = t\<lparr>Filecontent := Filecontent t + 1\<rparr>\<rparr>\<rparr>
         else if category = ''filename''
         then r\<lparr>Summary := \<lparr>Types = t\<lparr>Filename' := Filename' t + 1\<rparr>\<rparr>\<rparr>
         else if category = ''filesize''
         then r\<lparr>Summary := \<lparr>Types = t\<lparr>Filesize := Filesize t + 1\<rparr>\<rparr>\<rparr>
         else r)"

definition Fail ::
  "DetectionResults \<Rightarrow> FilePath \<Rightarrow> string \<Rightarrow> string \<Rightarrow> string list \<Rightarrow> DetectionResults" where
  "Fail r filePath category message commits =
     (let (rs, isFilePresentInResults) =
            resultsLoop (failRecord category message commits) filePath (Results r);
          rs' = (if \<not> isFilePresentInResults
                 then rs @ [\<lparr>Filename = filePath,
                              FailureList = [\<lparr>Category = category, Message = message,
                                              Commits = commits\<rparr>],
                              WarningList = [], IgnoreList = []\<rparr>]
                 else rs)
      in updateResultsSummary (r\<lparr>Results := rs'\<rparr>) category)"

definition Warn ::
  "DetectionResults \<Rightarrow> FilePath \<Rightarrow> string \<Rightarrow> string \<Rightarrow> string list \<Rightarrow> DetectionResults" where
  "Warn r filePath category message commits =
     (let (rs, isFilePresentInResults) =
            resultsLoop (warnRecord category message commits) filePath (Results r);
          rs' = (if \<not> isFilePresentInResults
                 then rs @ [\<lparr>Filename = filePath, FailureList = [],
                              WarningList = [\<lparr>Category = category, Message = message,
                                              Commits = commits\<rparr>],
                              IgnoreList = []\<rparr>]
                 else rs);
          t = Types (Summary r)
      in r\<lparr>Results := rs', Summary := \<lparr>Types = t\<lparr>Warnings := Warnings t + 1\<rparr>\<rparr>\<rparr>)"

definition Ignore :: "DetectionResults \<Rightarrow> FilePath \<Rightarrow> string \<Rightarrow> DetectionResults" where
  "Ignore r filePath category =
     (let (rs, isFilePresentInResults) =
            resultsLoop (ignoreRecord category) filePath (Results r);
          rs' = (if \<not> isFilePresentInResults
                 then rs @ [\<lparr>Filename = filePath, FailureList = [], WarningList = [],
                              IgnoreList = [\<lparr>Category = category, Message = [],
                                             Commits = []\<rparr>]\<rparr>]
                 else rs);
          t = Types (Summary r)
      in r\<lparr>Results := rs', Summary := \<lparr>Types = t\<lparr>Ignores := Ignores t + 1\<rparr>\<rparr>\<rparr>)"

section \<open>Verdicts and queries\<close>

definition HasFailures :: "DetectionResults \<Rightarrow> bool" where
  "HasFailures r =
     (0 <s Filesize (Types (Summary r)) \<or> 0 <s Filename' (Types (Summary r))
      \<or> 0 <s Filecontent (Types (Summary r)))"

definition HasIgnores :: "DetectionResults \<Rightarrow> bool" where
  "HasIgnores r = (0 <s Ignores (Types (Summary r)))"

definition HasWarnings :: "DetectionResults \<Rightarrow> bool" where
  "HasWarnings r = (0 <s Warnings (Types (Summary r)))"

definition HasDetectionMessages :: "DetectionResults \<Rightarrow> bool" where
  "HasDetectionMessages r = (HasWarnings r \<or> HasFailures r \<or> HasIgnores r)"

definition Successful :: "DetectionResults \<Rightarrow> bool" where
  "Successful r = (\<not> HasFailures r)"

text \<open>
  \<open>GetFailures\<close> tests the pointer for nil before it reads the field;
  \<open>ReportFileFailures\<close> and \<open>ReportFileWarnings\<close> read the field of whatever
  \<open>getResultDetailsForFilePath\<close> returned, which panics on nil.
\<close>

definition GetFailures :: "DetectionResults \<Rightarrow> FilePath \<Rightarrow> error + Details list" where
  "GetFailures r fileName =
     (case getResultDetailsForFilePath (Results r) fileName of
        None \<Rightarrow> Inr []
      | Some results \<Rightarrow> Inr (FailureList results))"

definition breakMessage :: "string \<Rightarrow> string" where
  "breakMessage m =
     (if length m > 150 then take 150 m @ [CHR 0x0A] @ drop 150 m else m)"

fun rowsLoop :: "FilePath \<Rightarrow> Details list \<Rightarrow> string list list \<Rightarrow> string list list" where
  "rowsLoop filePath [] data = data"
| "rowsLoop filePath (detail # rest) data =
     rowsLoop filePath rest (data @ [[filePath, breakMessage (Message detail)]])"

definition ReportFileFailures :: "DetectionResults \<Rightarrow> FilePath \<Rightarrow> error + string list list" where
  "ReportFileFailures r filePath =
     (case getResultDetailsForFilePath (Results r) filePath of
        None \<Rightarrow> Inl NilPointerDereference
      | Some rd \<Rightarrow>
          (let failureList = FailureList rd
           in if length failureList > 0 then Inr (rowsLoop filePath failureList [])
              else Inr []))"

definition ReportFileWarnings :: "DetectionResults \<Rightarrow> FilePath \<Rightarrow> error + string list list" where
  "ReportFileWarnings r filePath =
     (case getResultDetailsForFilePath (Results r) filePath of
        None \<Rightarrow> Inl NilPointerDereference
      | Some rd \<Rightarrow>
          (let warningList = WarningList rd
           in if length warningList > 0 then Inr (rowsLoop filePath warningList [])
              else Inr []))"

section \<open>Sequences of calls\<close>

datatype call =
    CallFail FilePath string string "string list"
  | CallWarn FilePath string string "string list"
  | CallIgnore FilePath string

fun applyCall :: "DetectionResults \<Rightarrow> call \<Rightarrow> DetectionResults" where
  "applyCall r (CallFail filePath category message commits) =
     Fail r filePath category message commits"
| "applyCall r (CallWarn filePath category message commits) =
     Warn r filePath category message commits"
| "applyCall r (CallIgnore filePath category) = Ignore r filePath category"

definition runCalls :: "DetectionResults \<Rightarrow> call list \<Rightarrow> DetectionResults" where
  "runCalls r calls = foldl applyCall r calls"

fun callPath :: "call \<Rightarrow> FilePath" where
  "callPath (CallFail filePath category message commits) = filePath"
| "callPath (CallWarn filePath category message commits) = filePath"
| "callPath (CallIgnore filePath category) = filePath"

fun failsTracked :: "call \<Rightarrow> bool" where
  "failsTracked (CallFail filePath category message commits) =
     (category = ''filecontent'' \<or> category = ''filename'' \<or> category = ''filesize'')"
| "failsTracked (CallWarn filePath category message commits) = False"
| "failsTracked (CallIgnore filePath category) = False"

text \<open>The failures of a file are read with \<open>GetFailures\<close>; the source has no reader
  for the ignore list, so \<open>ignoresOf\<close> reads it the way \<open>GetFailures\<close> reads the
  failures.\<close>

definition ignoresOf :: "DetectionResults \<Rightarrow> FilePath \<Rightarrow> Details list" where
  "ignoresOf r p =
     (case getResultDetailsForFilePath (Results r) p of
        None \<Rightarrow> []
      | Some rd \<Rightarrow> IgnoreList rd)"

text \<open>The number of \<open>Fail\<close> calls of one category in a sequence.\<close>

fun failCount :: "string \<Rightarrow> call list \<Rightarrow> nat" where
  "failCount category [] = 0"
| "failCount category (CallFail p c m cs # calls) =
     (if c = category then 1 else 0) + failCount category calls"
| "failCount category (CallWarn p c m cs # calls) = failCount category calls"
| "failCount category (CallIgnore p c # calls) = failCount category calls"

section \<open>The uniqueness properties\<close>

definition findingUnique :: "Details list \<Rightarrow> bool" where
  "findingUnique ds = distinct (map (\<lambda>d. (Category d, Message d)) ds)"

definition categoryUnique :: "Details list \<Rightarrow> bool" where
  "categoryUnique ds = distinct (map Category ds)"

definition recordUnique :: "ResultsDetails \<Rightarrow> bool" where
  "recordUnique rd =
     (findingUnique (FailureList rd) \<and> findingUnique (WarningList rd)
      \<and> categoryUnique (IgnoreList rd))"

definition wellFormed :: "DetectionResults \<Rightarrow> bool" where
  "wellFormed r = (distinct (map Filename (Results r)) \<and> list_all recordUnique (Results r))"

section \<open>Reporting and the suggestion of ignore entries\<close>

text \<open>
  \<open>Report\<close> writes to standard output, to the log, to the file system it is given and
  asks the prompt of its \<open>PromptContext\<close>. These effects are made explicit in a record
  \<open>World\<close> that every function takes and returns: the file system, what was printed,
  what was logged, the state of the prompter, and the calls made on the file system and
  on the prompt, in order.

  The file system stands for an \<open>afero.Fs\<close>: the contents of its files, and for each name
  whether opening it fails, after how many bytes a write to it fails (\<open>None\<close>: the write
  is complete) and whether closing it fails. Opening with
  \<open>O_APPEND|O_CREATE|O_WRONLY\<close> creates a missing file empty, and a write goes to the end.
  When \<open>OpenFile\<close> fails the source logs the error and goes on with the nil file, whose
  \<open>WriteString\<close> panics.

  Modelled from the spec: the types \<open>FileIgnoreConfig\<close> and \<open>TalismanRCIgnore\<close> and the
  type \<open>prompt.PromptContext\<close> are declared outside \<open>detection_results.go\<close>; a
  suppression entry has a file name, a checksum and a list of excluded detectors, and a
  suppression-config document is made of a list of entries. \<open>utility.UniqueItems\<close>,
  \<open>utility.CollectiveSHA256Hash\<close> and \<open>yaml.Marshal\<close> are taken as parameters, in the
  record \<open>Env\<close>; \<open>MarshalConfig\<close> also tells whether marshalling returned an error.
  \<open>Prompt\<close> is the method \<open>Confirm\<close> of the prompt, a function of the question and
  of the state of the prompter.
\<close>

datatype stdout_event =
    Printf string
  | Println string
  | TableRender "string list" "string list list"

datatype log_entry =
    ErrorOpening string
  | ErrorWriting string
  | ErrorClosing string
  | ErrorMarshalling

datatype fs_call =
    OpenFileAppend string
  | WriteString string string
  | CloseFile string

record Fs =
  files :: "string \<rightharpoonup> string"
  openFails :: "string \<Rightarrow> bool"
  writeLimit :: "string \<Rightarrow> nat option"
  closeFails :: "string \<Rightarrow> bool"

record FileIgnoreConfig =
  FileName :: string
  Checksum :: string
  IgnoreDetectors :: "string list"

record TalismanRCIgnore =
  FileIgnoreConfig :: "FileIgnoreConfig list"

record Env =
  UniqueItems :: "string list \<Rightarrow> string list"
  CollectiveSHA256Hash :: "string list \<Rightarrow> string"
  MarshalRC :: "TalismanRCIgnore \<Rightarrow> string"
  MarshalConfig :: "FileIgnoreConfig \<Rightarrow> string \<times> bool"

record 'p PromptContext =
  Interactive :: bool
  Prompt :: "string \<Rightarrow> 'p \<Rightarrow> bool \<times> 'p"

record 'p World =
  fs :: Fs
  stdout :: "stdout_event list"
  logs :: "log_entry list"
  prompter :: 'p
  fsCalls :: "fs_call list"
  confirmCalls :: "string list"

definition reportHeading :: string where
  "reportHeading = [CHR 0x0A, CHR 0x1B] @ ''[1m'' @ [CHR 0x1B] @ ''[31mTalisman Report:''
     @ [CHR 0x1B] @ ''[0m'' @ [CHR 0x1B] @ ''[0m'' @ [CHR 0x0A]"

definition suggestString :: string where
  "suggestString = [CHR 0x0A, CHR 0x1B] @ ''[33mIf you are absolutely sure that you want to ignore the ''
     @ ''above files from talisman detectors, consider pasting the following format in .talismanrc file''
     @ '' in the project root'' @ [CHR 0x1B] @ ''[0m'' @ [CHR 0x0A]"

definition confirmationString :: string where
  "confirmationString = ''Do you want to add this entry in talismanrc ?''"

definition confirm ::
  "Env \<Rightarrow> FileIgnoreConfig \<Rightarrow> 'p PromptContext \<Rightarrow> 'p World \<Rightarrow> bool \<times> 'p World" where
  "confirm env config promptContext w =
     (let (bytes, err) = MarshalConfig env config;
          w1 = (if err then w\<lparr>logs := logs w @ [ErrorMarshalling]\<rparr> else w);
          w2 = w1\<lparr>stdout := stdout w1 @ [Println bytes]\<rparr>;
          (answer, p') = Prompt promptContext confirmationString (prompter w2)
      in (answer, w2\<lparr>prompter := p',
                      confirmCalls := confirmCalls w2 @ [confirmationString]\<rparr>))"

fun getUserConfirmationLoop ::
  "Env \<Rightarrow> 'p PromptContext \<Rightarrow> FileIgnoreConfig list \<Rightarrow> FileIgnoreConfig list \<Rightarrow> 'p World
     \<Rightarrow> FileIgnoreConfig list \<times> 'p World" where
  "getUserConfirmationLoop env promptContext [] confirmed w = (confirmed, w)"
| "getUserConfirmationLoop env promptContext (config # configs) confirmed w =
     (let (answer, w') = confirm env config promptContext w
      in getUserConfirmationLoop env promptContext configs
           (if answer then confirmed @ [config] else confirmed) w')"

definition getUserConfirmation ::
  "Env \<Rightarrow> FileIgnoreConfig list \<Rightarrow> 'p PromptContext \<Rightarrow> 'p World
     \<Rightarrow> FileIgnoreConfig list \<times> 'p World" where
  "getUserConfirmation env configs promptContext w =
     getUserConfirmationLoop env promptContext configs [] w"

definition printTalismanIgnoreSuggestion :: "Env \<Rightarrow> FileIgnoreConfig list \<Rightarrow> 'p World \<Rightarrow> 'p World" where
  "printTalismanIgnoreSuggestion env entriesToAdd w =
     (let ignoreEntries = MarshalRC env \<lparr>FileIgnoreConfig = entriesToAdd\<rparr>
      in w\<lparr>stdout := stdout w @ [Println suggestString, Println ignoreEntries]\<rparr>)"

definition addToTalismanIgnoreFile ::
  "Env \<Rightarrow> FileIgnoreConfig list \<Rightarrow> string \<Rightarrow> 'p World \<Rightarrow> (error + unit) \<times> 'p World" where
  "addToTalismanIgnoreFile env entriesToAdd ignoreFile w =
     (if length entriesToAdd > 0 then
        (let ignoreEntries = MarshalRC env \<lparr>FileIgnoreConfig = entriesToAdd\<rparr>;
             w1 = w\<lparr>fsCalls := fsCalls w @ [OpenFileAppend ignoreFile]\<rparr>
         in if openFails (fs w1) ignoreFile
            then (Inl NilPointerDereference, w1\<lparr>logs := logs w1 @ [ErrorOpening ignoreFile]\<rparr>)
            else
              (let old = (case files (fs w1) ignoreFile of None \<Rightarrow> [] | Some content \<Rightarrow> content);
                   (written, err) = (case writeLimit (fs w1) ignoreFile of
                                       None \<Rightarrow> (ignoreEntries, False)
                                     | Some n \<Rightarrow> (take n ignoreEntries, True));
                   w2 = w1\<lparr>fs := (fs w1)\<lparr>files := (files (fs w1))(ignoreFile \<mapsto> old @ written)\<rparr>,
                           fsCalls := fsCalls w1 @ [WriteString ignoreFile ignoreEntries]\<rparr>;
                   w3 = (if err then w2\<lparr>logs := logs w2 @ [ErrorWriting ignoreFile]\<rparr> else w2);
                   w4 = w3\<lparr>fsCalls := fsCalls w3 @ [CloseFile ignoreFile]\<rparr>;
                   w5 = (if closeFails (fs w4) ignoreFile
                         then w4\<lparr>logs := logs w4 @ [ErrorClosing ignoreFile]\<rparr> else w4)
               in (Inr (), w5)))
      else (Inr (), w))"

fun entriesLoop :: "Env \<Rightarrow> string list \<Rightarrow> FileIgnoreConfig list \<Rightarrow> FileIgnoreConfig list" where
  "entriesLoop env [] entriesToAdd = entriesToAdd"
| "entriesLoop env (filePath # filePaths) entriesToAdd =
     (let currentChecksum = CollectiveSHA256Hash env [filePath];
          fileIgnoreConfig = \<lparr>FileName = filePath, Checksum = currentChecksum, IgnoreDetectors = []\<rparr>
      in entriesLoop env filePaths (entriesToAdd @ [fileIgnoreConfig]))"

definition suggestTalismanRC ::
  "Env \<Rightarrow> string \<Rightarrow> string list \<Rightarrow> 'p PromptContext \<Rightarrow> 'p World \<Rightarrow> (error + unit) \<times> 'p World" where
  "suggestTalismanRC env ignoreFile filePaths promptContext w =
     (let entriesToAdd = entriesLoop env filePaths []
      in if Interactive promptContext then
           (let (confirmedEntries, w') = getUserConfirmation env entriesToAdd promptContext w
            in addToTalismanIgnoreFile env confirmedEntries ignoreFile w')
         else (Inr (), printTalismanIgnoreSuggestion env entriesToAdd w))"

fun reportLoop ::
  "DetectionResults \<Rightarrow> ResultsDetails list \<Rightarrow> string list \<Rightarrow> string list list
     \<Rightarrow> error + string list \<times> string list list" where
  "reportLoop r [] filePathsForIgnoresAndFailures data = Inr (filePathsForIgnoresAndFailures, data)"
| "reportLoop r (resultDetails # rest) filePathsForIgnoresAndFailures data =
     (if length (FailureList resultDetails) > 0 \<or> length (IgnoreList resultDetails) > 0
      then (case ReportFileFailures r (Filename resultDetails) of
              Inl e \<Rightarrow> Inl e
            | Inr failureData \<Rightarrow>
                reportLoop r rest (filePathsForIgnoresAndFailures @ [Filename resultDetails])
                  (data @ failureData))
      else reportLoop r rest filePathsForIgnoresAndFailures data)"

definition Report ::
  "Env \<Rightarrow> DetectionResults \<Rightarrow> string \<Rightarrow> 'p PromptContext \<Rightarrow> 'p World \<Rightarrow> (error + string) \<times> 'p World" where
  "Report env r ignoreFile promptContext w =
     (case reportLoop r (Results r) [] [] of
        Inl e \<Rightarrow> (Inl e, w)
      | Inr (paths, data) \<Rightarrow>
          (let filePathsForIgnoresAndFailures = UniqueItems env paths
           in if HasFailures r then
                (let w1 = w\<lparr>stdout := stdout w @ [Printf reportHeading,
                                                   TableRender [''File'', ''Errors''] data]\<rparr>;
                     (res, w2) = suggestTalismanRC env ignoreFile filePathsForIgnoresAndFailures
                                   promptContext w1
                 in (case res of Inl e \<Rightarrow> (Inl e, w2) | Inr u \<Rightarrow> (Inr [], w2)))
              else (Inr [], w)))"

text \<open>The answers the prompt gives when it is asked \<open>n\<close> times in a row.\<close>

fun promptAnswers :: "'p PromptContext \<Rightarrow> 'p \<Rightarrow> nat \<Rightarrow> bool list" where
  "promptAnswers promptContext p 0 = []"
| "promptAnswers promptContext p (Suc n) =
     (let (answer, p') = Prompt promptContext confirmationString p
      in answer # promptAnswers promptContext p' n)"

section \<open>A scripted environment\<close>

text \<open>
  Concrete collaborators for running the model, after \<open>detection_results_test.go\<close>:
  an in-memory file system that holds the ignore file, a prompt that gives scripted
  answers, and short stand-ins for the checksum and for the YAML rendering.
\<close>

fun scriptedPrompt :: "string \<Rightarrow> bool list \<Rightarrow> bool \<times> bool list" where
  "scriptedPrompt question [] = (False, [])"
| "scriptedPrompt question (answer # answers) = (answer, answers)"

definition testEnv :: Env where
  "testEnv = \<lparr>UniqueItems = remdups,
              CollectiveSHA256Hash = (\<lambda>xs. ''sha256 of '' @ concat xs),
              MarshalRC = (\<lambda>rc. ''fileignoreconfig:'' @
                 concat (map (\<lambda>e. '' '' @ FileName e @ '' '' @ Checksum e) (FileIgnoreConfig rc))
                 @ ''; ''),
              MarshalConfig = (\<lambda>e. (FileName e @ '' '' @ Checksum e, False))\<rparr>"

definition testContext :: "bool \<Rightarrow> bool list PromptContext" where
  "testContext interactive = \<lparr>Interactive = interactive, Prompt = scriptedPrompt\<rparr>"

definition testWorld :: "bool list \<Rightarrow> bool list World" where
  "testWorld answers =
     \<lparr>fs = \<lparr>files = [''talismanrc'' \<mapsto> ''existing; ''], openFails = (\<lambda>f. False),
             writeLimit = (\<lambda>f. None), closeFails = (\<lambda>f. False)\<rparr>,
      stdout = [], logs = [], prompter = answers, fsCalls = [], confirmCalls = []\<rparr>"

definition testResults :: DetectionResults where
  "testResults = Fail NewDetectionResults ''some_file.pem'' ''filecontent'' ''Bomb'' []"

section \<open>The loops in closed form\<close>

lemma appendCommitsLoop_fst:
  "fst (appendCommitsLoop c m cs ds) =
     map (\<lambda>d. if Category d = c \<and> Message d = m then d\<lparr>Commits := Commits d @ cs\<rparr> else d) ds"
  by (induction ds) (auto simp: Let_def split: prod.splits)

lemma appendCommitsLoop_snd:
  "snd (appendCommitsLoop c m cs ds) = (\<exists>d \<in> set ds. Category d = c \<and> Message d = m)"
  by (induction ds) (auto simp: Let_def split: prod.splits)

lemma categoryPresentLoop_iff:
  "categoryPresentLoop c ds = (c \<in> Category ` set ds)"
  by (induction ds) (auto simp: Let_def)

lemma resultsLoop_fst:
  "fst (resultsLoop upd p rds) = map (\<lambda>rd. if Filename rd = p then upd rd else rd) rds"
  by (induction rds) (auto simp: Let_def split: prod.splits)

lemma resultsLoop_snd:
  "snd (resultsLoop upd p rds) = (p \<in> Filename ` set rds)"
  by (induction rds) (auto simp: Let_def split: prod.splits)

lemma Filename_failRecord [simp]: "Filename (failRecord c m cs rd) = Filename rd"
  by (simp add: failRecord_def split: prod.splits)

lemma Filename_warnRecord [simp]: "Filename (warnRecord c m cs rd) = Filename rd"
  by (simp add: warnRecord_def split: prod.splits)

lemma Filename_ignoreRecord [simp]: "Filename (ignoreRecord c rd) = Filename rd"
  by (simp add: ignoreRecord_def)

lemma Results_updateResultsSummary [simp]: "Results (updateResultsSummary r c) = Results r"
  by (simp add: updateResultsSummary_def Let_def)

lemma FailureList_failRecord:
  "FailureList (failRecord c m cs rd) =
     (if snd (appendCommitsLoop c m cs (FailureList rd))
      then fst (appendCommitsLoop c m cs (FailureList rd))
      else fst (appendCommitsLoop c m cs (FailureList rd))
             @ [\<lparr>Category = c, Message = m, Commits = cs\<rparr>])"
  by (simp add: failRecord_def split: prod.splits)

lemma Results_Fail:
  "Results (Fail r p c m cs) =
     (if p \<in> Filename ` set (Results r)
      then map (\<lambda>rd. if Filename rd = p then failRecord c m cs rd else rd) (Results r)
      else Results r @ [\<lparr>Filename = p,
                          FailureList = [\<lparr>Category = c, Message = m, Commits = cs\<rparr>],
                          WarningList = [], IgnoreList = []\<rparr>])"
proof -
  obtain rs b where rb: "resultsLoop (failRecord c m cs) p (Results r) = (rs, b)"
    by (cases "resultsLoop (failRecord c m cs) p (Results r)")
  have 1: "rs = map (\<lambda>rd. if Filename rd = p then failRecord c m cs rd else rd) (Results r)"
    using resultsLoop_fst [of "failRecord c m cs" p "Results r"] rb by simp
  have 2: "b = (p \<in> Filename ` set (Results r))"
    using resultsLoop_snd [of "failRecord c m cs" p "Results r"] rb by simp
  have 3: "map (\<lambda>rd. if Filename rd = p then failRecord c m cs rd else rd) (Results r) = Results r"
    if "p \<notin> Filename ` set (Results r)"
    using that by (auto intro!: map_idI)
  show ?thesis using 3
    by (simp add: Fail_def rb 1 2 Let_def)
qed

lemma Results_Warn:
  "Results (Warn r p c m cs) =
     (if p \<in> Filename ` set (Results r)
      then map (\<lambda>rd. if Filename rd = p then warnRecord c m cs rd else rd) (Results r)
      else Results r @ [\<lparr>Filename = p, FailureList = [],
                          WarningList = [\<lparr>Category = c, Message = m, Commits = cs\<rparr>],
                          IgnoreList = []\<rparr>])"
proof -
  obtain rs b where rb: "resultsLoop (warnRecord c m cs) p (Results r) = (rs, b)"
    by (cases "resultsLoop (warnRecord c m cs) p (Results r)")
  have 1: "rs = map (\<lambda>rd. if Filename rd = p then warnRecord c m cs rd else rd) (Results r)"
    using resultsLoop_fst [of "warnRecord c m cs" p "Results r"] rb by simp
  have 2: "b = (p \<in> Filename ` set (Results r))"
    using resultsLoop_snd [of "warnRecord c m cs" p "Results r"] rb by simp
  have 3: "map (\<lambda>rd. if Filename rd = p then warnRecord c m cs rd else rd) (Results r) = Results r"
    if "p \<notin> Filename ` set (Results r)"
    using that by (auto intro!: map_idI)
  show ?thesis using 3
    by (simp add: Warn_def rb 1 2 Let_def)
qed

lemma Results_Ignore:
  "Results (Ignore r p c) =
     (if p \<in> Filename ` set (Results r)
      then map (\<lambda>rd. if Filename rd = p then ignoreRecord c rd else rd) (Results r)
      else Results r @ [\<lparr>Filename = p, FailureList = [], WarningList = [],
                          IgnoreList = [\<lparr>Category = c, Message = [], Commits = []\<rparr>]\<rparr>])"
proof -
  obtain rs b where rb: "resultsLoop (ignoreRecord c) p (Results r) = (rs, b)"
    by (cases "resultsLoop (ignoreRecord c) p (Results r)")
  have 1: "rs = map (\<lambda>rd. if Filename rd = p then ignoreRecord c rd else rd) (Results r)"
    using resultsLoop_fst [of "ignoreRecord c" p "Results r"] rb by simp
  have 2: "b = (p \<in> Filename ` set (Results r))"
    using resultsLoop_snd [of "ignoreRecord c" p "Results r"] rb by simp
  have 3: "map (\<lambda>rd. if Filename rd = p then ignoreRecord c rd else rd) (Results r) = Results r"
    if "p \<notin> Filename ` set (Results r)"
    using that by (auto intro!: map_idI)
  show ?thesis using 3
    by (simp add: Ignore_def rb 1 2 Let_def)
qed

lemma Types_updateResultsSummary:
  "Types (Summary (updateResultsSummary r c)) =
     (let t = Types (Summary r) in
      if c = ''filecontent'' then t\<lparr>Filecontent := Filecontent t + 1\<rparr>
      else if c = ''filename'' then t\<lparr>Filename' := Filename' t + 1\<rparr>
      else if c = ''filesize'' then t\<lparr>Filesize := Filesize t + 1\<rparr> else t)"
  by (simp add: updateResultsSummary_def Let_def)

lemma Types_Fail:
  "Types (Summary (Fail r p c m cs)) = Types (Summary (updateResultsSummary r c))"
  by (simp add: Fail_def updateResultsSummary_def Let_def split: prod.splits)

lemma Types_Warn:
  "Types (Summary (Warn r p c m cs)) =
     (Types (Summary r))\<lparr>Warnings := Warnings (Types (Summary r)) + 1\<rparr>"
  by (simp add: Warn_def Let_def split: prod.splits)

lemma Types_Ignore:
  "Types (Summary (Ignore r p c)) =
     (Types (Summary r))\<lparr>Ignores := Ignores (Types (Summary r)) + 1\<rparr>"
  by (simp add: Ignore_def Let_def split: prod.splits)

section \<open>Looking a file up\<close>

lemma map_Filename_update:
  "(\<And>rd. Filename (upd rd) = Filename rd) \<Longrightarrow>
   map Filename (map (\<lambda>rd. if Filename rd = p then upd rd else rd) rds) = map Filename rds"
  by (induction rds) auto

lemma lookup_None_iff:
  "getResultDetailsForFilePath rds p = None \<longleftrightarrow> p \<notin> Filename ` set rds"
  by (induction rds) auto

lemma lookup_update:
  "(\<And>rd. Filename (upd rd) = Filename rd) \<Longrightarrow>
   getResultDetailsForFilePath (map (\<lambda>rd. if Filename rd = p then upd rd else rd) rds) q =
     (if q = p then map_option upd (getResultDetailsForFilePath rds q)
      else getResultDetailsForFilePath rds q)"
  by (induction rds) auto

lemma lookup_append:
  "getResultDetailsForFilePath (rds @ rds') q =
     (case getResultDetailsForFilePath rds q of Some rd \<Rightarrow> Some rd
      | None \<Rightarrow> getResultDetailsForFilePath rds' q)"
  by (induction rds) auto

lemma lookup_member:
  "rd \<in> set rds \<Longrightarrow> \<exists>rd'. getResultDetailsForFilePath rds (Filename rd) = Some rd'"
  by (induction rds) auto

lemma lookup_Fail_self:
  "getResultDetailsForFilePath (Results (Fail r p c m cs)) p =
     (case getResultDetailsForFilePath (Results r) p of
        None \<Rightarrow> Some \<lparr>Filename = p,
                        FailureList = [\<lparr>Category = c, Message = m, Commits = cs\<rparr>],
                        WarningList = [], IgnoreList = []\<rparr>
      | Some rd \<Rightarrow> Some (failRecord c m cs rd))"
  by (auto simp: Results_Fail lookup_update lookup_append lookup_None_iff [symmetric]
           split: option.splits)

lemma lookup_Ignore_self:
  "getResultDetailsForFilePath (Results (Ignore r p c)) p =
     (case getResultDetailsForFilePath (Results r) p of
        None \<Rightarrow> Some \<lparr>Filename = p, FailureList = [], WarningList = [],
                        IgnoreList = [\<lparr>Category = c, Message = [], Commits = []\<rparr>]\<rparr>
      | Some rd \<Rightarrow> Some (ignoreRecord c rd))"
  by (auto simp: Results_Ignore lookup_update lookup_append lookup_None_iff [symmetric]
           split: option.splits)

lemma GetFailures_Fail_self:
  "GetFailures (Fail r p c m cs) p =
     (case GetFailures r p of
        Inl e \<Rightarrow> Inl e
      | Inr fl \<Rightarrow>
          Inr (if snd (appendCommitsLoop c m cs fl) then fst (appendCommitsLoop c m cs fl)
               else fst (appendCommitsLoop c m cs fl)
                      @ [\<lparr>Category = c, Message = m, Commits = cs\<rparr>]))"
  by (simp add: GetFailures_def lookup_Fail_self FailureList_failRecord split: option.splits)

section \<open>The files of a run\<close>

lemma names_Fail:
  "map Filename (Results (Fail r p c m cs)) =
     (if p \<in> Filename ` set (Results r) then map Filename (Results r)
      else map Filename (Results r) @ [p])"
  by (simp add: Results_Fail map_Filename_update)

lemma names_Warn:
  "map Filename (Results (Warn r p c m cs)) =
     (if p \<in> Filename ` set (Results r) then map Filename (Results r)
      else map Filename (Results r) @ [p])"
  by (simp add: Results_Warn map_Filename_update)

lemma names_Ignore:
  "map Filename (Results (Ignore r p c)) =
     (if p \<in> Filename ` set (Results r) then map Filename (Results r)
      else map Filename (Results r) @ [p])"
  by (simp add: Results_Ignore map_Filename_update)

lemma names_applyCall:
  "map Filename (Results (applyCall r c)) =
     (if callPath c \<in> Filename ` set (Results r) then map Filename (Results r)
      else map Filename (Results r) @ [callPath c])"
  by (cases c) (simp_all only: applyCall.simps callPath.simps names_Fail names_Warn names_Ignore)

lemma paths_applyCall:
  "Filename ` set (Results (applyCall r c)) = insert (callPath c) (Filename ` set (Results r))"
proof -
  have "Filename ` set (Results (applyCall r c)) = set (map Filename (Results (applyCall r c)))"
    by simp
  also have "\<dots> = insert (callPath c) (Filename ` set (Results r))"
    unfolding names_applyCall by auto
  finally show ?thesis .
qed

lemma runCalls_Nil: "runCalls r [] = r"
  by (simp add: runCalls_def)

lemma runCalls_Cons: "runCalls r (c # calls) = runCalls (applyCall r c) calls"
  by (simp add: runCalls_def)

lemma paths_runCalls:
  "Filename ` set (Results (runCalls r calls)) = Filename ` set (Results r) \<union> callPath ` set calls"
  unfolding runCalls_def
  by (induction calls arbitrary: r) (auto simp: paths_applyCall)

lemma untouched_lookup:
  assumes "p \<notin> callPath ` set calls"
  shows "getResultDetailsForFilePath (Results (runCalls NewDetectionResults calls)) p = None"
  using assms by (simp add: lookup_None_iff paths_runCalls NewDetectionResults_def)

section \<open>The uniqueness properties are kept\<close>

lemma keys_appendCommits:
  "map (\<lambda>d. (Category d, Message d)) (fst (appendCommitsLoop c m cs ds)) =
     map (\<lambda>d. (Category d, Message d)) ds"
  by (simp add: appendCommitsLoop_fst)

lemma findingUnique_appendCommits:
  assumes "findingUnique ds"
  shows "findingUnique
           (if snd (appendCommitsLoop c m cs ds) then fst (appendCommitsLoop c m cs ds)
            else fst (appendCommitsLoop c m cs ds)
                   @ [\<lparr>Category = c, Message = m, Commits = cs\<rparr>])"
proof (cases "snd (appendCommitsLoop c m cs ds)")
  case True
  then show ?thesis using assms by (simp add: findingUnique_def keys_appendCommits)
next
  case False
  then have "(c, m) \<notin> set (map (\<lambda>d. (Category d, Message d)) ds)"
    by (auto simp: appendCommitsLoop_snd)
  then show ?thesis using assms False by (simp add: findingUnique_def keys_appendCommits)
qed

lemma recordUnique_failRecord: "recordUnique rd \<Longrightarrow> recordUnique (failRecord c m cs rd)"
  using findingUnique_appendCommits [of "FailureList rd" c m cs]
  by (auto simp: recordUnique_def failRecord_def split: prod.splits)

lemma recordUnique_warnRecord: "recordUnique rd \<Longrightarrow> recordUnique (warnRecord c m cs rd)"
  using findingUnique_appendCommits [of "WarningList rd" c m cs]
  by (auto simp: recordUnique_def warnRecord_def split: prod.splits)

lemma recordUnique_ignoreRecord: "recordUnique rd \<Longrightarrow> recordUnique (ignoreRecord c rd)"
  by (auto simp: recordUnique_def ignoreRecord_def categoryPresentLoop_iff categoryUnique_def)

lemma list_all_update:
  "list_all P rds \<Longrightarrow> (\<And>rd. P rd \<Longrightarrow> P (upd rd)) \<Longrightarrow>
   list_all P (map (\<lambda>rd. if Filename rd = p then upd rd else rd) rds)"
  by (induction rds) auto

lemma wellFormed_Fail: "wellFormed r \<Longrightarrow> wellFormed (Fail r p c m cs)"
  unfolding wellFormed_def names_Fail
  by (auto simp: Results_Fail list_all_update recordUnique_failRecord)
     (simp_all add: recordUnique_def findingUnique_def categoryUnique_def)

lemma wellFormed_Warn: "wellFormed r \<Longrightarrow> wellFormed (Warn r p c m cs)"
  unfolding wellFormed_def names_Warn
  by (auto simp: Results_Warn list_all_update recordUnique_warnRecord)
     (simp_all add: recordUnique_def findingUnique_def categoryUnique_def)

lemma wellFormed_Ignore: "wellFormed r \<Longrightarrow> wellFormed (Ignore r p c)"
  unfolding wellFormed_def names_Ignore
  by (auto simp: Results_Ignore list_all_update recordUnique_ignoreRecord)
     (simp_all add: recordUnique_def findingUnique_def categoryUnique_def)

lemma wellFormed_applyCall: "wellFormed r \<Longrightarrow> wellFormed (applyCall r c)"
  by (cases c) (simp_all add: wellFormed_Fail wellFormed_Warn wellFormed_Ignore)

lemma wellFormed_runCalls: "wellFormed r \<Longrightarrow> wellFormed (runCalls r calls)"
  unfolding runCalls_def
  by (induction calls arbitrary: r) (simp_all add: wellFormed_applyCall)

section \<open>The counters of a run\<close>

lemma positive_of_nat:
  assumes "n < 2 ^ 63"
  shows "(0 <s (of_nat n :: 64 word)) = (0 < n)"
proof -
  have "int n < 2 ^ 63"
    using assms by (metis of_nat_less_numeral_power_cancel_iff)
  then have "sint (of_nat n :: 64 word) = int n"
    by (simp add: signed_of_nat signed_take_bit_int_eq_self)
  then show ?thesis by (simp add: word_sless_alt)
qed

lemma not_positive_min: "\<not> (0 <s (of_nat (2 ^ 63) :: 64 word))"
  by (simp add: word_sless_alt)

lemma counters_applyCall:
  "Filecontent (Types (Summary (applyCall r c))) =
     Filecontent (Types (Summary r)) + of_nat (failCount ''filecontent'' [c])"
  "Filename' (Types (Summary (applyCall r c))) =
     Filename' (Types (Summary r)) + of_nat (failCount ''filename'' [c])"
  "Filesize (Types (Summary (applyCall r c))) =
     Filesize (Types (Summary r)) + of_nat (failCount ''filesize'' [c])"
  by (cases c; simp add: Types_Fail Types_Warn Types_Ignore Types_updateResultsSummary Let_def)+

lemma failCount_Cons: "failCount k (c # calls) = failCount k [c] + failCount k calls"
  by (cases c) simp_all

lemma Filecontent_runCalls:
  "Filecontent (Types (Summary (runCalls r calls))) =
     Filecontent (Types (Summary r)) + of_nat (failCount ''filecontent'' calls)"
proof (induction calls arbitrary: r)
  case Nil
  show ?case by (simp add: runCalls_Nil)
next
  case (Cons c calls)
  show ?case
    unfolding runCalls_Cons Cons.IH counters_applyCall(1) failCount_Cons [of _ c calls]
    by simp
qed

lemma Filename_runCalls:
  "Filename' (Types (Summary (runCalls r calls))) =
     Filename' (Types (Summary r)) + of_nat (failCount ''filename'' calls)"
proof (induction calls arbitrary: r)
  case Nil
  show ?case by (simp add: runCalls_Nil)
next
  case (Cons c calls)
  show ?case
    unfolding runCalls_Cons Cons.IH counters_applyCall(2) failCount_Cons [of _ c calls]
    by simp
qed

lemma Filesize_runCalls:
  "Filesize (Types (Summary (runCalls r calls))) =
     Filesize (Types (Summary r)) + of_nat (failCount ''filesize'' calls)"
proof (induction calls arbitrary: r)
  case Nil
  show ?case by (simp add: runCalls_Nil)
next
  case (Cons c calls)
  show ?case
    unfolding runCalls_Cons Cons.IH counters_applyCall(3) failCount_Cons [of _ c calls]
    by simp
qed

lemma failCount_le:
  assumes "k = ''filecontent'' \<or> k = ''filename'' \<or> k = ''filesize''"
  shows "failCount k calls \<le> length (filter failsTracked calls)"
  using assms by (induction k calls rule: failCount.induct) auto

lemma failCount_pos_iff:
  "(0 < failCount ''filesize'' calls \<or> 0 < failCount ''filename'' calls
    \<or> 0 < failCount ''filecontent'' calls)
     = (\<exists>c \<in> set calls. failsTracked c)"
  by (induction calls rule: failCount.induct [of _ "''x''"]) auto

lemma failCount_replicate:
  "failCount k (replicate n (CallFail p c m cs)) = (if c = k then n else 0)"
  by (induction n) simp_all

lemma HasFailures_runCalls:
  "HasFailures (runCalls NewDetectionResults calls) =
    (0 <s (of_nat (failCount ''filesize'' calls) :: 64 word)
     \<or> 0 <s (of_nat (failCount ''filename'' calls) :: 64 word)
     \<or> 0 <s (of_nat (failCount ''filecontent'' calls) :: 64 word))"
  by (simp add: HasFailures_def Filecontent_runCalls Filename_runCalls Filesize_runCalls
        NewDetectionResults_def)

lemma HasFailures_bounded:
  assumes "length (filter failsTracked calls) < 2 ^ 63"
  shows "HasFailures (runCalls NewDetectionResults calls) = (\<exists>c \<in> set calls. failsTracked c)"
proof -
  have b: "failCount k calls < 2 ^ 63"
    if "k = ''filecontent'' \<or> k = ''filename'' \<or> k = ''filesize''" for k
    using failCount_le [OF that, of calls] assms by simp
  have "HasFailures (runCalls NewDetectionResults calls) =
          (0 < failCount ''filesize'' calls \<or> 0 < failCount ''filename'' calls
           \<or> 0 < failCount ''filecontent'' calls)"
    unfolding HasFailures_runCalls
    by (simp only: positive_of_nat [OF b] simp_thms)
  also have "\<dots> = (\<exists>c \<in> set calls. failsTracked c)"
    by (rule failCount_pos_iff)
  finally show ?thesis .
qed

lemma Successful_untracked:
  assumes "\<not> failsTracked c"
  shows "Successful (applyCall r c) = Successful r"
  using assms
  by (cases c)
     (simp_all add: Successful_def HasFailures_def Types_Fail Types_Warn Types_Ignore
        Types_updateResultsSummary)

section \<open>The rows of a file\<close>

lemma rowsLoop_map:
  "rowsLoop p ds data = data @ map (\<lambda>d. [p, breakMessage (Message d)]) ds"
  by (induction ds arbitrary: data) simp_all

lemma breakMessage_short: "length m \<le> 150 \<Longrightarrow> breakMessage m = m"
  by (simp add: breakMessage_def)

lemma breakMessage_long:
  assumes "150 < length m"
  shows "breakMessage m = take 150 m @ [CHR 0x0A] @ drop 150 m"
    and "length (breakMessage m) = length m + 1"
    and "take 150 (breakMessage m) = take 150 m"
    and "breakMessage m ! 150 = CHR 0x0A"
    and "drop 151 (breakMessage m) = drop 150 m"
  using assms by (simp_all add: breakMessage_def nth_append min_def)

section \<open>What the report touches\<close>

lemma entriesLoop_map:
  "entriesLoop env filePaths entriesToAdd =
     entriesToAdd @ map (\<lambda>filePath. \<lparr>FileName = filePath,
                                     Checksum = CollectiveSHA256Hash env [filePath],
                                     IgnoreDetectors = []\<rparr>) filePaths"
  by (induction filePaths arbitrary: entriesToAdd) (simp_all add: Let_def)

lemma confirm_frame:
  "fs (snd (confirm env config pc w)) = fs w"
  "fsCalls (snd (confirm env config pc w)) = fsCalls w"
  "confirmCalls (snd (confirm env config pc w)) = confirmCalls w @ [confirmationString]"
  "fst (confirm env config pc w) = fst (Prompt pc confirmationString (prompter w))"
  "prompter (snd (confirm env config pc w)) = snd (Prompt pc confirmationString (prompter w))"
  by (simp_all add: confirm_def Let_def split: prod.splits)

lemma getUserConfirmationLoop_frame:
  "fs (snd (getUserConfirmationLoop env pc configs confirmed w)) = fs w
   \<and> fsCalls (snd (getUserConfirmationLoop env pc configs confirmed w)) = fsCalls w
   \<and> confirmCalls (snd (getUserConfirmationLoop env pc configs confirmed w))
        = confirmCalls w @ replicate (length configs) confirmationString"
proof (induction configs arbitrary: confirmed w)
  case Nil
  show ?case by simp
next
  case (Cons config configs)
  obtain answer w' where c: "confirm env config pc w = (answer, w')"
    by (cases "confirm env config pc w")
  have w': "fs w' = fs w" "fsCalls w' = fsCalls w"
       "confirmCalls w' = confirmCalls w @ [confirmationString]"
    using confirm_frame(1-3) [of env config pc w] c by simp_all
  show ?case
    using Cons.IH [of "if answer then confirmed @ [config] else confirmed" w']
    by (simp add: c w' replicate_app_Cons_same)
qed

lemma getUserConfirmationLoop_answers:
  "fst (getUserConfirmationLoop env pc configs confirmed w) =
     confirmed @ map fst (filter snd
        (zip configs (promptAnswers pc (prompter w) (length configs))))"
proof (induction configs arbitrary: confirmed w)
  case Nil
  show ?case by simp
next
  case (Cons config configs)
  obtain answer w' where c: "confirm env config pc w = (answer, w')"
    by (cases "confirm env config pc w")
  obtain a p' where p: "Prompt pc confirmationString (prompter w) = (a, p')"
    by (cases "Prompt pc confirmationString (prompter w)")
  have w': "answer = a" "prompter w' = p'"
    using confirm_frame(4,5) [of env config pc w] c p by simp_all
  show ?case
    using Cons.IH [of "if answer then confirmed @ [config] else confirmed" w']
    by (simp add: c p w')
qed

lemma getUserConfirmation_frame:
  assumes "getUserConfirmation env configs pc w = (confirmed, w')"
  shows "fs w' = fs w" and "fsCalls w' = fsCalls w"
    and "confirmCalls w' = confirmCalls w @ replicate (length configs) confirmationString"
  using getUserConfirmationLoop_frame [of env pc configs "[]" w] assms
  by (simp_all add: getUserConfirmation_def)

lemma getUserConfirmation_answers:
  assumes "getUserConfirmation env configs pc w = (confirmed, w')"
  shows "confirmed = map fst (filter snd
           (zip configs (promptAnswers pc (prompter w) (length configs))))"
  using getUserConfirmationLoop_answers [of env pc configs "[]" w] assms
  by (simp add: getUserConfirmation_def)

lemma addToTalismanIgnoreFile_empty:
  "addToTalismanIgnoreFile env [] f w = (Inr (), w)"
  by (simp add: addToTalismanIgnoreFile_def)

lemma addToTalismanIgnoreFile_ok:
  assumes "entries \<noteq> []" and "\<not> openFails (fs w) f" and "writeLimit (fs w) f = None"
    and "addToTalismanIgnoreFile env entries f w = (res, w')"
  shows "res = Inr ()"
    and "files (fs w') = (files (fs w))(f \<mapsto>
           (case files (fs w) f of None \<Rightarrow> [] | Some content \<Rightarrow> content)
             @ MarshalRC env \<lparr>FileIgnoreConfig = entries\<rparr>)"
    and "fsCalls w' = fsCalls w @ [OpenFileAppend f,
           WriteString f (MarshalRC env \<lparr>FileIgnoreConfig = entries\<rparr>), CloseFile f]"
  using assms by (auto simp: addToTalismanIgnoreFile_def Let_def)

lemma addToTalismanIgnoreFile_prefix:
  assumes "files (fs w) f = Some content"
  shows "\<exists>content'. files (fs (snd (addToTalismanIgnoreFile env entries f w))) f = Some content'
           \<and> prefix content content'"
  using assms by (auto simp: addToTalismanIgnoreFile_def Let_def split: option.splits)

lemma suggest_noninteractive:
  assumes "\<not> Interactive pc"
  shows "suggestTalismanRC env f paths pc w =
           (Inr (), w\<lparr>stdout := stdout w @ [Println suggestString,
               Println (MarshalRC env \<lparr>FileIgnoreConfig = entriesLoop env paths []\<rparr>)]\<rparr>)"
  using assms by (simp add: suggestTalismanRC_def printTalismanIgnoreSuggestion_def Let_def)

lemma Report_no_failures:
  assumes "\<not> HasFailures r"
  shows "snd (Report env r f pc w) = w"
  using assms by (simp add: Report_def split: sum.splits prod.splits)

lemma Report_noninteractive:
  assumes "\<not> Interactive pc"
  shows "fs (snd (Report env r f pc w)) = fs w"
    and "fsCalls (snd (Report env r f pc w)) = fsCalls w"
    and "confirmCalls (snd (Report env r f pc w)) = confirmCalls w"
    and "prompter (snd (Report env r f pc w)) = prompter w"
    and "logs (snd (Report env r f pc w)) = logs w"
  using assms
  by (simp_all add: Report_def suggest_noninteractive Let_def split: sum.splits prod.splits)

lemma Report_noninteractive_stdout:
  assumes "\<not> Interactive pc" and "HasFailures r"
    and "reportLoop r (Results r) [] [] = Inr (paths, data)"
  shows "stdout (snd (Report env r f pc w)) =
           stdout w @ [Printf reportHeading, TableRender [''File'', ''Errors''] data,
                       Println suggestString,
                       Println (MarshalRC env
                         \<lparr>FileIgnoreConfig = entriesLoop env (UniqueItems env paths) []\<rparr>)]"
  using assms by (simp add: Report_def suggest_noninteractive Let_def)

lemma reportLoop_total:
  assumes "set rds \<subseteq> set (Results r)"
  shows "\<exists>res. reportLoop r rds paths data = Inr res"
  using assms
proof (induction rds arbitrary: paths data)
  case Nil
  show ?case by simp
next
  case (Cons rd rds)
  then have "rd \<in> set (Results r)" by simp
  then obtain rd' where "getResultDetailsForFilePath (Results r) (Filename rd) = Some rd'"
    using lookup_member by blast
  then obtain rows where "ReportFileFailures r (Filename rd) = Inr rows"
    by (cases "FailureList rd' = []") (simp_all add: ReportFileFailures_def Let_def)
  then show ?case using Cons by simp
qed

lemmas collect_defs = NewDetectionResults_def Fail_def Warn_def Ignore_def failRecord_def
  warnRecord_def ignoreRecord_def updateResultsSummary_def runCalls_def Let_def

lemmas query_defs = GetFailures_def ReportFileFailures_def ReportFileWarnings_def
  HasFailures_def Successful_def breakMessage_def ignoresOf_def word_sless_alt

lemmas report_defs = Report_def suggestTalismanRC_def getUserConfirmation_def confirm_def
  addToTalismanIgnoreFile_def printTalismanIgnoreSuggestion_def testEnv_def testContext_def
  testWorld_def testResults_def confirmationString_def

section \<open>The verdict\<close>

text \<open>
  C1, as stated: for every sequence of calls, \<open>Successful\<close> is false if and only if some
  \<open>Fail\<close> call used one of the categories filecontent, filename and filesize. The
  counters are machine integers: after \<open>2 ^ 63\<close> calls of \<open>Fail\<close> with the category
  filecontent the counter has wrapped around to the least negative value, \<open>HasFailures\<close>
  finds no counter above zero, and \<open>Successful\<close> is true although every call of the
  sequence was such a \<open>Fail\<close>.
\<close>

theorem Successful_after_wrap_counterexample:
  "Successful (runCalls NewDetectionResults
      (replicate (2 ^ 63) (CallFail ''f'' ''filecontent'' ''m'' [])))
   \<and> CallFail ''f'' ''filecontent'' ''m'' []
        \<in> set (replicate (2 ^ 63) (CallFail ''f'' ''filecontent'' ''m'' []))
   \<and> failsTracked (CallFail ''f'' ''filecontent'' ''m'' [])"
  unfolding Successful_def HasFailures_runCalls failCount_replicate
  using not_positive_min by simp

text \<open>
  C1, amended: for every sequence of \<open>Fail\<close>, \<open>Warn\<close> and \<open>Ignore\<close> calls on the
  results of \<open>NewDetectionResults\<close> in which fewer than \<open>2 ^ 63\<close> \<open>Fail\<close> calls use a
  category among filecontent, filename and filesize, \<open>Successful\<close> is false if and only
  if at least one \<open>Fail\<close> call used such a category; and a \<open>Warn\<close> call, an
  \<open>Ignore\<close> call or a \<open>Fail\<close> call with any other category leaves \<open>Successful\<close> as
  it was, in every state.
\<close>

theorem Successful_iff_tracked_Fail:
  "(length (filter failsTracked calls) < 2 ^ 63 \<longrightarrow>
      (Successful (runCalls NewDetectionResults calls) = False)
        = (\<exists>c \<in> set calls. failsTracked c))
   \<and> (\<not> failsTracked c \<longrightarrow> Successful (applyCall r c) = Successful r)"
  using HasFailures_bounded [of calls] Successful_untracked [of c r]
  by (simp add: Successful_def)

theorem Successful_iff_tracked_Fail_witness:
  "length (filter failsTracked
      [CallWarn ''a'' ''filecontent'' ''w'' [], CallIgnore ''a'' ''filename'',
       CallFail ''some_filename'' ''filename'' ''Bomb'' []]) < 2 ^ 63
   \<and> Successful (runCalls NewDetectionResults
        [CallWarn ''a'' ''filecontent'' ''w'' [], CallIgnore ''a'' ''filename'',
         CallFail ''some_filename'' ''filename'' ''Bomb'' []]) = False
   \<and> \<not> failsTracked (CallFail ''some_filename'' '''' ''Bomb'' [])
   \<and> Successful (applyCall NewDetectionResults (CallFail ''some_filename'' '''' ''Bomb'' []))"
  using Successful_iff_tracked_Fail
          [of "[CallWarn ''a'' ''filecontent'' ''w'' [], CallIgnore ''a'' ''filename'',
                CallFail ''some_filename'' ''filename'' ''Bomb'' []]"
              "CallFail ''some_filename'' '''' ''Bomb'' []" NewDetectionResults]
  by (simp add: Successful_def HasFailures_def NewDetectionResults_def)

section \<open>Failing twice for the same reason\<close>

text \<open>
  C2: when a file has no failure of that category and message yet, \<open>Fail\<close> with commits
  \<open>c1\<close> and then \<open>Fail\<close> with commits \<open>c2\<close>, for the same file, category and
  message, leave the failures of the file as they were, followed by one finding of that
  category and message whose commits are \<open>c1\<close> followed by \<open>c2\<close>: one finding and no
  duplicate.
\<close>

theorem Fail_twice_one_finding:
  assumes "GetFailures r p = Inr fl"
    and "\<forall>d \<in> set fl. \<not> (Category d = c \<and> Message d = m)"
  shows "GetFailures (Fail (Fail r p c m c1) p c m c2) p
           = Inr (fl @ [\<lparr>Category = c, Message = m, Commits = c1 @ c2\<rparr>])
       \<and> filter (\<lambda>d. Category d = c \<and> Message d = m)
           (fl @ [\<lparr>Category = c, Message = m, Commits = c1 @ c2\<rparr>])
           = [\<lparr>Category = c, Message = m, Commits = c1 @ c2\<rparr>]"
proof -
  have no: "\<not> snd (appendCommitsLoop c m c1 fl)"
    using assms(2) by (simp add: appendCommitsLoop_snd)
  have same: "map (\<lambda>d. if Category d = c \<and> Message d = m
                        then d\<lparr>Commits := Commits d @ cs\<rparr> else d) fl = fl" for cs
    using assms(2) by (auto intro!: map_idI)
  have 1: "GetFailures (Fail r p c m c1) p
             = Inr (fl @ [\<lparr>Category = c, Message = m, Commits = c1\<rparr>])"
    using no by (simp add: GetFailures_Fail_self assms(1) appendCommitsLoop_fst same)
  have 2: "snd (appendCommitsLoop c m c2 (fl @ [\<lparr>Category = c, Message = m, Commits = c1\<rparr>]))"
    by (simp add: appendCommitsLoop_snd)
  have 3: "fst (appendCommitsLoop c m c2 (fl @ [\<lparr>Category = c, Message = m, Commits = c1\<rparr>]))
             = fl @ [\<lparr>Category = c, Message = m, Commits = c1 @ c2\<rparr>]"
    by (simp add: appendCommitsLoop_fst same)
  have 4: "GetFailures (Fail (Fail r p c m c1) p c m c2) p
           = Inr (fl @ [\<lparr>Category = c, Message = m, Commits = c1 @ c2\<rparr>])"
    unfolding GetFailures_Fail_self [of "Fail r p c m c1"] 1 using 2 3 by simp
  have 5: "filter (\<lambda>d. Category d = c \<and> Message d = m) fl = []"
    using assms(2) by (auto simp: filter_empty_conv)
  show ?thesis using 4 5 by simp
qed

theorem Fail_twice_one_finding_witness:
  "GetFailures (Fail NewDetectionResults ''some_filename'' ''filename''
                  ''Complete & utter failure'' [''c0'']) ''some_filename''
     = Inr [\<lparr>Category = ''filename'', Message = ''Complete & utter failure'',
              Commits = [''c0'']\<rparr>]
   \<and> GetFailures
       (Fail (Fail (Fail NewDetectionResults ''some_filename'' ''filename''
                      ''Complete & utter failure'' [''c0''])
                ''some_filename'' ''filename'' ''Bomb'' [''c1''])
          ''some_filename'' ''filename'' ''Bomb'' [''c2'', ''c3'']) ''some_filename''
     = Inr [\<lparr>Category = ''filename'', Message = ''Complete & utter failure'',
              Commits = [''c0'']\<rparr>,
            \<lparr>Category = ''filename'', Message = ''Bomb'',
              Commits = [''c1'', ''c2'', ''c3'']\<rparr>]"
proof -
  have h1: "GetFailures (Fail NewDetectionResults ''some_filename'' ''filename''
                  ''Complete & utter failure'' [''c0'']) ''some_filename''
     = Inr [\<lparr>Category = ''filename'', Message = ''Complete & utter failure'',
              Commits = [''c0'']\<rparr>]"
    by (simp add: collect_defs query_defs)
  have h2: "\<forall>d \<in> set [\<lparr>Category = ''filename'', Message = ''Complete & utter failure'',
              Commits = [''c0'']\<rparr>]. \<not> (Category d = ''filename'' \<and> Message d = ''Bomb'')"
    by simp
  show ?thesis
    using h1 Fail_twice_one_finding [OF h1 h2, of "[''c1'']" "[''c2'', ''c3'']"] by simp
qed

section \<open>Ignoring a file\<close>

text \<open>
  C5: every call of \<open>Ignore\<close> adds one to the counter \<open>Ignores\<close> and leaves the other
  counters alone, also when the category is already there for the file; the ignore
  list of the file gets a new finding, with an empty message and no commits, only when it
  has none of that category, and is left as it was otherwise; so a list with one finding
  for each category stays so.
\<close>

theorem Ignore_counts_calls:
  "Types (Summary (Ignore r p c)) =
     (Types (Summary r))\<lparr>Ignores := Ignores (Types (Summary r)) + 1\<rparr>
   \<and> ignoresOf (Ignore r p c) p =
       (if c \<in> Category ` set (ignoresOf r p) then ignoresOf r p
        else ignoresOf r p @ [\<lparr>Category = c, Message = [], Commits = []\<rparr>])
   \<and> (categoryUnique (ignoresOf r p) \<longrightarrow> categoryUnique (ignoresOf (Ignore r p c) p))"
proof -
  have a: "ignoresOf (Ignore r p c) p =
       (if c \<in> Category ` set (ignoresOf r p) then ignoresOf r p
        else ignoresOf r p @ [\<lparr>Category = c, Message = [], Commits = []\<rparr>])"
    by (simp add: ignoresOf_def lookup_Ignore_self ignoreRecord_def categoryPresentLoop_iff
             split: option.splits)
  have b: "categoryUnique (ignoresOf (Ignore r p c) p)" if "categoryUnique (ignoresOf r p)"
    using that unfolding a by (auto simp: categoryUnique_def)
  show ?thesis using a b by (simp add: Types_Ignore)
qed

theorem Ignore_counts_calls_witness:
  "categoryUnique (ignoresOf (Ignore NewDetectionResults ''some_file'' ''some-detector'')
                     ''some_file'')
   \<and> ''some-detector'' \<in> Category `
        set (ignoresOf (Ignore NewDetectionResults ''some_file'' ''some-detector'') ''some_file'')
   \<and> Ignores (Types (Summary
        (Ignore (Ignore NewDetectionResults ''some_file'' ''some-detector'')
           ''some_file'' ''some-detector''))) = 2
   \<and> ignoresOf (Ignore (Ignore NewDetectionResults ''some_file'' ''some-detector'')
                   ''some_file'' ''some-detector'') ''some_file''
       = [\<lparr>Category = ''some-detector'', Message = [], Commits = []\<rparr>]
   \<and> categoryUnique
       (ignoresOf (Ignore (Ignore NewDetectionResults ''some_file'' ''some-detector'')
                     ''some_file'' ''some-detector'') ''some_file'')"
proof -
  have i: "ignoresOf (Ignore NewDetectionResults ''some_file'' ''some-detector'') ''some_file''
             = [\<lparr>Category = ''some-detector'', Message = [], Commits = []\<rparr>]"
    by (simp add: collect_defs query_defs)
  have n: "Ignores (Types (Summary (Ignore NewDetectionResults ''some_file'' ''some-detector'')))
             = 1"
    by (simp add: collect_defs)
  show ?thesis
    using Ignore_counts_calls
            [of "Ignore NewDetectionResults ''some_file'' ''some-detector''"
                "''some_file''" "''some-detector''"]
    by (simp add: i n categoryUnique_def)
qed

section \<open>The invariant\<close>

text \<open>
  C6: after any sequence of \<open>Fail\<close>, \<open>Warn\<close> and \<open>Ignore\<close> calls on the results of
  \<open>NewDetectionResults\<close>, no two records have the same file name, the failures and the
  warnings of each record have no two findings of the same category and message, and its
  ignore list has no two findings of the same category.
\<close>

theorem uniqueness_invariant:
  "distinct (map Filename (Results (runCalls NewDetectionResults calls)))
   \<and> (\<forall>rd \<in> set (Results (runCalls NewDetectionResults calls)).
        findingUnique (FailureList rd) \<and> findingUnique (WarningList rd)
        \<and> categoryUnique (IgnoreList rd))"
proof -
  have "wellFormed NewDetectionResults"
    by (simp add: wellFormed_def NewDetectionResults_def)
  then have "wellFormed (runCalls NewDetectionResults calls)"
    by (rule wellFormed_runCalls)
  then show ?thesis
    by (simp add: wellFormed_def list_all_iff recordUnique_def)
qed

theorem uniqueness_invariant_witness:
  "map Filename (Results (runCalls NewDetectionResults
      [CallFail ''some_filename'' ''filename'' ''Bomb'' [''c1''],
       CallFail ''some_filename'' ''filename'' ''Bomb'' [''c2''],
       CallIgnore ''another_filename'' ''some-detector'',
       CallIgnore ''another_filename'' ''some-detector'',
       CallWarn ''some_filename'' ''filesize'' ''big'' []]))
     = [''some_filename'', ''another_filename'']
   \<and> distinct (map Filename (Results (runCalls NewDetectionResults
      [CallFail ''some_filename'' ''filename'' ''Bomb'' [''c1''],
       CallFail ''some_filename'' ''filename'' ''Bomb'' [''c2''],
       CallIgnore ''another_filename'' ''some-detector'',
       CallIgnore ''another_filename'' ''some-detector'',
       CallWarn ''some_filename'' ''filesize'' ''big'' []])))
   \<and> list_all recordUnique (Results (runCalls NewDetectionResults
      [CallFail ''some_filename'' ''filename'' ''Bomb'' [''c1''],
       CallFail ''some_filename'' ''filename'' ''Bomb'' [''c2''],
       CallIgnore ''another_filename'' ''some-detector'',
       CallIgnore ''another_filename'' ''some-detector'',
       CallWarn ''some_filename'' ''filesize'' ''big'' []]))"
proof -
  have names: "map Filename (Results (runCalls NewDetectionResults
      [CallFail ''some_filename'' ''filename'' ''Bomb'' [''c1''],
       CallFail ''some_filename'' ''filename'' ''Bomb'' [''c2''],
       CallIgnore ''another_filename'' ''some-detector'',
       CallIgnore ''another_filename'' ''some-detector'',
       CallWarn ''some_filename'' ''filesize'' ''big'' []]))
     = [''some_filename'', ''another_filename'']"
    by (simp add: collect_defs)
  show ?thesis
    using names uniqueness_invariant
      [of "[CallFail ''some_filename'' ''filename'' ''Bomb'' [''c1''],
       CallFail ''some_filename'' ''filename'' ''Bomb'' [''c2''],
       CallIgnore ''another_filename'' ''some-detector'',
       CallIgnore ''another_filename'' ''some-detector'',
       CallWarn ''some_filename'' ''filesize'' ''big'' []]"]
    by (simp add: list_all_iff recordUnique_def)
qed

section \<open>A file no call has named\<close>

text \<open>
  C7: for a file that no \<open>Fail\<close>, \<open>Warn\<close> or \<open>Ignore\<close> call of the run has named,
  \<open>GetFailures\<close> returns the empty list, and not an error.
\<close>

theorem GetFailures_untouched:
  assumes "p \<notin> callPath ` set calls"
  shows "GetFailures (runCalls NewDetectionResults calls) p = Inr []"
  using untouched_lookup [OF assms] by (simp add: GetFailures_def)

theorem GetFailures_untouched_witness:
  "''yet_another_filename'' \<notin> callPath `
      set [CallFail ''some_filename'' ''filename'' ''Bomb'' [],
           CallFail ''another_filename'' ''filename'' ''Complete & utter failure'' []]
   \<and> GetFailures (runCalls NewDetectionResults
        [CallFail ''some_filename'' ''filename'' ''Bomb'' [],
         CallFail ''another_filename'' ''filename'' ''Complete & utter failure'' []])
       ''yet_another_filename'' = Inr []"
proof -
  have h: "''yet_another_filename'' \<notin> callPath `
      set [CallFail ''some_filename'' ''filename'' ''Bomb'' [],
           CallFail ''another_filename'' ''filename'' ''Complete & utter failure'' []]"
    by simp
  show ?thesis using h GetFailures_untouched [OF h] by simp
qed

text \<open>
  C10: for a file that no \<open>Fail\<close>, \<open>Warn\<close> or \<open>Ignore\<close> call of the run has named,
  \<open>ReportFileFailures\<close> and \<open>ReportFileWarnings\<close> read a field of the nil record and
  panic, where \<open>GetFailures\<close> returns the empty list.
\<close>

theorem ReportFile_untouched_panics:
  assumes "p \<notin> callPath ` set calls"
  shows "ReportFileFailures (runCalls NewDetectionResults calls) p = Inl NilPointerDereference
       \<and> ReportFileWarnings (runCalls NewDetectionResults calls) p = Inl NilPointerDereference"
  using untouched_lookup [OF assms]
  by (simp add: ReportFileFailures_def ReportFileWarnings_def)

theorem ReportFile_untouched_panics_witness:
  "''yet_another_filename'' \<notin> callPath `
      set [CallFail ''some_filename'' '''' ''Bomb'' [],
           CallWarn ''another_filename'' '''' ''Complete & utter failure'' []]
   \<and> ReportFileFailures (runCalls NewDetectionResults
        [CallFail ''some_filename'' '''' ''Bomb'' [],
         CallWarn ''another_filename'' '''' ''Complete & utter failure'' []])
       ''yet_another_filename'' = Inl NilPointerDereference
   \<and> ReportFileWarnings (runCalls NewDetectionResults
        [CallFail ''some_filename'' '''' ''Bomb'' [],
         CallWarn ''another_filename'' '''' ''Complete & utter failure'' []])
       ''yet_another_filename'' = Inl NilPointerDereference"
proof -
  have h: "''yet_another_filename'' \<notin> callPath `
      set [CallFail ''some_filename'' '''' ''Bomb'' [],
           CallWarn ''another_filename'' '''' ''Complete & utter failure'' []]"
    by simp
  show ?thesis using h ReportFile_untouched_panics [OF h] by simp
qed

section \<open>The rows of the report\<close>

text \<open>
  C8: for a file that has a record, \<open>ReportFileFailures\<close> and \<open>ReportFileWarnings\<close>
  give one row, of the file and the message, for each finding of the file, in order. A
  message longer than 150 bytes is given with a line break put in at offset 150, the 150
  bytes before it and everything after it kept; a message of 150 bytes or fewer is given
  as it is.
\<close>

theorem ReportFile_rows:
  assumes "getResultDetailsForFilePath (Results r) p = Some rd"
  shows "ReportFileFailures r p
           = Inr (map (\<lambda>d. [p, breakMessage (Message d)]) (FailureList rd))
     \<and> ReportFileWarnings r p
           = Inr (map (\<lambda>d. [p, breakMessage (Message d)]) (WarningList rd))
     \<and> (\<forall>m. length m \<le> 150 \<longrightarrow> breakMessage m = m)
     \<and> (\<forall>m. 150 < length m \<longrightarrow>
           breakMessage m = take 150 m @ [CHR 0x0A] @ drop 150 m
           \<and> take 150 (breakMessage m) = take 150 m
           \<and> breakMessage m ! 150 = CHR 0x0A
           \<and> drop 151 (breakMessage m) = drop 150 m)"
proof -
  have "ReportFileFailures r p
          = Inr (map (\<lambda>d. [p, breakMessage (Message d)]) (FailureList rd))"
    using assms by (simp add: ReportFileFailures_def rowsLoop_map Let_def)
  moreover have "ReportFileWarnings r p
          = Inr (map (\<lambda>d. [p, breakMessage (Message d)]) (WarningList rd))"
    using assms by (simp add: ReportFileWarnings_def rowsLoop_map Let_def)
  ultimately show ?thesis
    using breakMessage_short breakMessage_long by blast
qed

theorem ReportFile_rows_witness:
  "getResultDetailsForFilePath
      (Results (Fail (Fail NewDetectionResults ''some_filename'' '''' ''Bomb'' [])
                  ''some_filename'' '''' (replicate 151 CHR ''x'') [])) ''some_filename''
     = Some \<lparr>Filename = ''some_filename'',
             FailureList = [\<lparr>Category = '''', Message = ''Bomb'', Commits = []\<rparr>,
                            \<lparr>Category = '''', Message = replicate 151 CHR ''x'',
                              Commits = []\<rparr>],
             WarningList = [], IgnoreList = []\<rparr>
   \<and> ReportFileFailures
       (Fail (Fail NewDetectionResults ''some_filename'' '''' ''Bomb'' [])
          ''some_filename'' '''' (replicate 151 CHR ''x'') []) ''some_filename''
     = Inr [[''some_filename'', ''Bomb''],
            [''some_filename'', replicate 150 CHR ''x'' @ [CHR 0x0A] @ ''x'']]
   \<and> ReportFileWarnings
       (Fail (Fail NewDetectionResults ''some_filename'' '''' ''Bomb'' [])
          ''some_filename'' '''' (replicate 151 CHR ''x'') []) ''some_filename''
     = Inr []"
proof -
  have h: "getResultDetailsForFilePath
      (Results (Fail (Fail NewDetectionResults ''some_filename'' '''' ''Bomb'' [])
                  ''some_filename'' '''' (replicate 151 CHR ''x'') [])) ''some_filename''
     = Some \<lparr>Filename = ''some_filename'',
             FailureList = [\<lparr>Category = '''', Message = ''Bomb'', Commits = []\<rparr>,
                            \<lparr>Category = '''', Message = replicate 151 CHR ''x'',
                              Commits = []\<rparr>],
             WarningList = [], IgnoreList = []\<rparr>"
  proof -
    have "length ''Bomb'' \<noteq> length (replicate 151 CHR ''x'')"
      by simp
    then have "''Bomb'' \<noteq> replicate 151 CHR ''x''"
      by (metis (no_types))
    then show ?thesis
      by (simp add: collect_defs)
  qed
  have b1: "breakMessage ''Bomb'' = ''Bomb''"
    by (simp add: breakMessage_def)
  have b2: "breakMessage (replicate 151 CHR ''x'') = replicate 150 CHR ''x'' @ [CHR 0x0A] @ ''x''"
    by (simp add: breakMessage_def)
  show ?thesis
    using h ReportFile_rows [OF h] by (simp add: b1 b2)
qed

section \<open>When the prompt is asked\<close>

text \<open>
  C3: \<open>Report\<close> asks the prompt only when \<open>HasFailures\<close> holds and the prompt context
  is interactive. When \<open>HasFailures\<close> does not hold, \<open>Report\<close> leaves everything as it
  was: the ignore file is not opened or written and the prompt is not asked. When the
  prompt context is not interactive, the prompt is not asked and the file system is
  neither called nor changed; what is printed after the table is the suggestion and the
  document of the candidate entries.
\<close>

theorem Report_confirm_guard:
  "(confirmCalls (snd (Report env r f pc w)) \<noteq> confirmCalls w
      \<longrightarrow> HasFailures r \<and> Interactive pc)
   \<and> (\<not> HasFailures r \<longrightarrow> snd (Report env r f pc w) = w)
   \<and> (\<not> Interactive pc \<longrightarrow>
        fs (snd (Report env r f pc w)) = fs w
        \<and> fsCalls (snd (Report env r f pc w)) = fsCalls w
        \<and> confirmCalls (snd (Report env r f pc w)) = confirmCalls w
        \<and> prompter (snd (Report env r f pc w)) = prompter w
        \<and> logs (snd (Report env r f pc w)) = logs w)
   \<and> (\<not> Interactive pc \<and> HasFailures r
        \<and> reportLoop r (Results r) [] [] = Inr (paths, data) \<longrightarrow>
        stdout (snd (Report env r f pc w)) =
          stdout w @ [Printf reportHeading, TableRender [''File'', ''Errors''] data,
                      Println suggestString,
                      Println (MarshalRC env
                        \<lparr>FileIgnoreConfig = entriesLoop env (UniqueItems env paths) []\<rparr>)])"
proof (intro conjI impI)
  assume changed: "confirmCalls (snd (Report env r f pc w)) \<noteq> confirmCalls w"
  show "HasFailures r"
    using changed Report_no_failures [of r env f pc w] by (cases "HasFailures r") simp_all
  show "Interactive pc"
    using changed Report_noninteractive(3) [of pc env r f w]
    by (cases "Interactive pc") simp_all
next
  assume "\<not> HasFailures r"
  then show "snd (Report env r f pc w) = w" by (rule Report_no_failures)
next
  assume n: "\<not> Interactive pc"
  show "fs (snd (Report env r f pc w)) = fs w"
    by (rule Report_noninteractive(1) [OF n])
  show "fsCalls (snd (Report env r f pc w)) = fsCalls w"
    by (rule Report_noninteractive(2) [OF n])
  show "confirmCalls (snd (Report env r f pc w)) = confirmCalls w"
    by (rule Report_noninteractive(3) [OF n])
  show "prompter (snd (Report env r f pc w)) = prompter w"
    by (rule Report_noninteractive(4) [OF n])
  show "logs (snd (Report env r f pc w)) = logs w"
    by (rule Report_noninteractive(5) [OF n])
next
  assume "\<not> Interactive pc \<and> HasFailures r
        \<and> reportLoop r (Results r) [] [] = Inr (paths, data)"
  then show "stdout (snd (Report env r f pc w)) =
          stdout w @ [Printf reportHeading, TableRender [''File'', ''Errors''] data,
                      Println suggestString,
                      Println (MarshalRC env
                        \<lparr>FileIgnoreConfig = entriesLoop env (UniqueItems env paths) []\<rparr>)]"
    using Report_noninteractive_stdout by blast
qed

theorem Report_confirm_guard_witness:
  "confirmCalls (snd (Report testEnv testResults ''talismanrc'' (testContext True)
                        (testWorld [False])))
      = [''Do you want to add this entry in talismanrc ?'']
   \<and> confirmCalls (testWorld [False]) = []
   \<and> HasFailures testResults \<and> Interactive (testContext True)
   \<and> \<not> HasFailures NewDetectionResults
   \<and> snd (Report testEnv NewDetectionResults ''talismanrc'' (testContext True)
             (testWorld [False])) = testWorld [False]
   \<and> \<not> Interactive (testContext False)
   \<and> reportLoop testResults (Results testResults) [] []
       = Inr ([''some_file.pem''], [[''some_file.pem'', ''Bomb'']])
   \<and> confirmCalls (snd (Report testEnv testResults ''talismanrc'' (testContext False)
                          (testWorld [True]))) = []
   \<and> fsCalls (snd (Report testEnv testResults ''talismanrc'' (testContext False)
                     (testWorld [True]))) = []
   \<and> files (fs (snd (Report testEnv testResults ''talismanrc'' (testContext False)
                        (testWorld [True])))) ''talismanrc'' = Some ''existing; ''
   \<and> stdout (snd (Report testEnv testResults ''talismanrc'' (testContext False)
                    (testWorld [True])))
       = [Printf reportHeading,
          TableRender [''File'', ''Errors''] [[''some_file.pem'', ''Bomb'']],
          Println suggestString,
          Println ''fileignoreconfig: some_file.pem sha256 of some_file.pem; '']"
proof -
  have a: "confirmCalls (snd (Report testEnv testResults ''talismanrc'' (testContext True)
                        (testWorld [False]))) \<noteq> confirmCalls (testWorld [False])"
    by (simp add: collect_defs query_defs report_defs)
  have a': "confirmCalls (snd (Report testEnv testResults ''talismanrc'' (testContext True)
                        (testWorld [False])))
      = [''Do you want to add this entry in talismanrc ?'']"
    by (simp add: collect_defs query_defs report_defs)
  have b: "\<not> HasFailures NewDetectionResults"
    by (simp add: collect_defs query_defs)
  have c: "\<not> Interactive (testContext False)"
    by (simp add: testContext_def)
  have d: "reportLoop testResults (Results testResults) [] []
       = Inr ([''some_file.pem''], [[''some_file.pem'', ''Bomb'']])"
    by (simp add: collect_defs query_defs testResults_def)
  have e: "HasFailures testResults"
    by (simp add: collect_defs query_defs testResults_def)
  show ?thesis
    using a a' b c d e
      Report_confirm_guard [of testEnv testResults "''talismanrc''" "testContext True"
         "testWorld [False]"]
      Report_confirm_guard [of testEnv NewDetectionResults "''talismanrc''" "testContext True"
         "testWorld [False]"]
      Report_confirm_guard [of testEnv testResults "''talismanrc''" "testContext False"
         "testWorld [True]" "[''some_file.pem'']" "[[''some_file.pem'', ''Bomb'']]"]
    by (simp add: testEnv_def testWorld_def)
qed

section \<open>What is appended to the ignore file\<close>

text \<open>
  C4: in interactive mode the entries kept are the candidates for which the prompt
  answered yes, in order. When none is kept, the file system is left as it was and is not
  called. When one or more are kept and the file opens and the write is complete, the
  file system is called three times, to open the ignore file, to write one document of
  all the entries kept and to close the file, and the ignore file then holds what it held
  (nothing, when it was missing) followed by that document, the other files being as they
  were. In every case what the ignore file held is a prefix of what it holds afterwards.
\<close>

theorem interactive_append:
  assumes "Interactive pc"
    and "getUserConfirmation env (entriesLoop env filePaths []) pc w = (confirmed, w1)"
    and "suggestTalismanRC env ignoreFile filePaths pc w = (res, w')"
  shows "confirmed = map fst (filter snd (zip (entriesLoop env filePaths [])
            (promptAnswers pc (prompter w) (length (entriesLoop env filePaths [])))))
     \<and> (confirmed = [] \<longrightarrow> res = Inr () \<and> fs w' = fs w \<and> fsCalls w' = fsCalls w)
     \<and> (confirmed \<noteq> [] \<and> \<not> openFails (fs w) ignoreFile
          \<and> writeLimit (fs w) ignoreFile = None \<longrightarrow>
          res = Inr ()
          \<and> files (fs w') = (files (fs w))(ignoreFile \<mapsto>
               (case files (fs w) ignoreFile of None \<Rightarrow> [] | Some content \<Rightarrow> content)
                 @ MarshalRC env \<lparr>FileIgnoreConfig = confirmed\<rparr>)
          \<and> fsCalls w' = fsCalls w @ [OpenFileAppend ignoreFile,
               WriteString ignoreFile (MarshalRC env \<lparr>FileIgnoreConfig = confirmed\<rparr>),
               CloseFile ignoreFile])
     \<and> (\<forall>content. files (fs w) ignoreFile = Some content \<longrightarrow>
          (\<exists>content'. files (fs w') ignoreFile = Some content' \<and> prefix content content'))"
proof -
  have w1: "fs w1 = fs w" "fsCalls w1 = fsCalls w"
    using getUserConfirmation_frame [OF assms(2)] by simp_all
  have add: "addToTalismanIgnoreFile env confirmed ignoreFile w1 = (res, w')"
    using assms by (simp add: suggestTalismanRC_def Let_def)
  have a: "res = Inr () \<and> fs w' = fs w \<and> fsCalls w' = fsCalls w" if "confirmed = []"
    using add that w1 by (simp add: addToTalismanIgnoreFile_empty)
  have b: "res = Inr ()
          \<and> files (fs w') = (files (fs w))(ignoreFile \<mapsto>
               (case files (fs w) ignoreFile of None \<Rightarrow> [] | Some content \<Rightarrow> content)
                 @ MarshalRC env \<lparr>FileIgnoreConfig = confirmed\<rparr>)
          \<and> fsCalls w' = fsCalls w @ [OpenFileAppend ignoreFile,
               WriteString ignoreFile (MarshalRC env \<lparr>FileIgnoreConfig = confirmed\<rparr>),
               CloseFile ignoreFile]"
    if "confirmed \<noteq> []" "\<not> openFails (fs w) ignoreFile" "writeLimit (fs w) ignoreFile = None"
    using addToTalismanIgnoreFile_ok [of confirmed w1 ignoreFile env res w'] that add w1
    by simp
  have c: "\<exists>content'. files (fs w') ignoreFile = Some content' \<and> prefix content content'"
    if "files (fs w) ignoreFile = Some content" for content
    using addToTalismanIgnoreFile_prefix [of w1 ignoreFile content env confirmed] that add w1
    by simp
  show ?thesis
    using a b c getUserConfirmation_answers [OF assms(2)] by blast
qed

theorem interactive_append_witness:
  "Interactive (testContext True)
   \<and> fst (getUserConfirmation testEnv
            (entriesLoop testEnv [''some_file.pem'', ''another.pem''] [])
            (testContext True) (testWorld [False, True]))
       = [\<lparr>FileName = ''another.pem'', Checksum = ''sha256 of another.pem'',
            IgnoreDetectors = []\<rparr>]
   \<and> \<not> openFails (fs (testWorld [False, True])) ''talismanrc''
   \<and> writeLimit (fs (testWorld [False, True])) ''talismanrc'' = None
   \<and> files (fs (testWorld [False, True])) ''talismanrc'' = Some ''existing; ''
   \<and> files (fs (snd (suggestTalismanRC testEnv ''talismanrc''
                        [''some_file.pem'', ''another.pem''] (testContext True)
                        (testWorld [False, True])))) ''talismanrc''
       = Some ''existing; fileignoreconfig: another.pem sha256 of another.pem; ''
   \<and> fsCalls (snd (suggestTalismanRC testEnv ''talismanrc''
                     [''some_file.pem'', ''another.pem''] (testContext True)
                     (testWorld [False, True])))
       = [OpenFileAppend ''talismanrc'',
          WriteString ''talismanrc'' ''fileignoreconfig: another.pem sha256 of another.pem; '',
          CloseFile ''talismanrc'']
   \<and> fst (getUserConfirmation testEnv (entriesLoop testEnv [''some_file.pem''] [])
            (testContext True) (testWorld [False])) = []
   \<and> files (fs (snd (suggestTalismanRC testEnv ''talismanrc'' [''some_file.pem'']
                        (testContext True) (testWorld [False])))) ''talismanrc''
       = Some ''existing; ''
   \<and> fsCalls (snd (suggestTalismanRC testEnv ''talismanrc'' [''some_file.pem'']
                     (testContext True) (testWorld [False]))) = []"
proof -
  have i: "Interactive (testContext True)"
    by (simp add: testContext_def)
  have c1: "fst (getUserConfirmation testEnv
            (entriesLoop testEnv [''some_file.pem'', ''another.pem''] [])
            (testContext True) (testWorld [False, True]))
       = [\<lparr>FileName = ''another.pem'', Checksum = ''sha256 of another.pem'',
            IgnoreDetectors = []\<rparr>]"
    by (simp add: report_defs Let_def)
  have c2: "fst (getUserConfirmation testEnv (entriesLoop testEnv [''some_file.pem''] [])
            (testContext True) (testWorld [False])) = []"
    by (simp add: report_defs Let_def)
  have f: "\<not> openFails (fs (testWorld answers)) ''talismanrc''"
    "writeLimit (fs (testWorld answers)) ''talismanrc'' = None"
    "files (fs (testWorld answers)) ''talismanrc'' = Some ''existing; ''"
    "fsCalls (testWorld answers) = []" for answers
    by (simp_all add: testWorld_def)
  have m: "MarshalRC testEnv \<lparr>FileIgnoreConfig =
             [\<lparr>FileName = ''another.pem'', Checksum = ''sha256 of another.pem'',
               IgnoreDetectors = []\<rparr>]\<rparr>
           = ''fileignoreconfig: another.pem sha256 of another.pem; ''"
    by (simp add: testEnv_def)
  have g1: "getUserConfirmation testEnv
            (entriesLoop testEnv [''some_file.pem'', ''another.pem''] [])
            (testContext True) (testWorld [False, True])
         = (fst (getUserConfirmation testEnv
                   (entriesLoop testEnv [''some_file.pem'', ''another.pem''] [])
                   (testContext True) (testWorld [False, True])),
            snd (getUserConfirmation testEnv
                   (entriesLoop testEnv [''some_file.pem'', ''another.pem''] [])
                   (testContext True) (testWorld [False, True])))"
    by simp
  have s1: "suggestTalismanRC testEnv ''talismanrc''
              [''some_file.pem'', ''another.pem''] (testContext True) (testWorld [False, True])
         = (fst (suggestTalismanRC testEnv ''talismanrc''
                   [''some_file.pem'', ''another.pem''] (testContext True)
                   (testWorld [False, True])),
            snd (suggestTalismanRC testEnv ''talismanrc''
                   [''some_file.pem'', ''another.pem''] (testContext True)
                   (testWorld [False, True])))"
    by simp
  have g2: "getUserConfirmation testEnv (entriesLoop testEnv [''some_file.pem''] [])
            (testContext True) (testWorld [False])
         = (fst (getUserConfirmation testEnv (entriesLoop testEnv [''some_file.pem''] [])
                   (testContext True) (testWorld [False])),
            snd (getUserConfirmation testEnv (entriesLoop testEnv [''some_file.pem''] [])
                   (testContext True) (testWorld [False])))"
    by simp
  have s2: "suggestTalismanRC testEnv ''talismanrc'' [''some_file.pem'']
              (testContext True) (testWorld [False])
         = (fst (suggestTalismanRC testEnv ''talismanrc'' [''some_file.pem'']
                   (testContext True) (testWorld [False])),
            snd (suggestTalismanRC testEnv ''talismanrc'' [''some_file.pem'']
                   (testContext True) (testWorld [False])))"
    by simp
  show ?thesis
    using i c1 c2 f [of "[False, True]"] f [of "[False]"] m
      interactive_append [OF i g1 s1] interactive_append [OF i g2 s2]
    by simp
qed

end
